theory Spec2Isabelle
  imports Main "HOL-Library.Word"
begin

unbundle bit_operations_syntax

section \<open>The tick stamp driver (mtk\_rtc\_tickstamp.c)\<close>

text \<open>
  The driver keeps one \<^verbatim>\<open>struct tick_stamp g_stamp\<close> whose only field,
  \<^verbatim>\<open>long epoch\<close>, accumulates ticker deltas.  Two work items load it from and save
  it to the file \<^verbatim>\<open>/cache/sc/tickstamp\<close>.  The target is a 64-bit kernel:
  \<^verbatim>\<open>long\<close> and \<^verbatim>\<open>unsigned long\<close> are 64-bit words, \<^verbatim>\<open>unsigned int\<close> is a
  32-bit word; arithmetic wraps, and a \<^verbatim>\<open>long\<close> is read with \<open>sint\<close> where the
  source compares signed values.
\<close>

subsection \<open>Constants\<close>

definition INFINITY :: "32 word" where
  "INFINITY = - 1"

definition TS_DIR :: string where
  "TS_DIR = ''/cache/sc''"

definition TS_PATH :: string where
  "TS_PATH = TS_DIR @ ''/tickstamp''"

datatype errno = ENOENT | EIO | EACCES | EINVAL | ENOSPC

fun errno_val :: "errno \<Rightarrow> int" where
  "errno_val ENOENT = 2"
| "errno_val EIO = 5"
| "errno_val EACCES = 13"
| "errno_val EINVAL = 22"
| "errno_val ENOSPC = 28"

subsection \<open>The retry budget\<close>

text \<open>
  \<^verbatim>\<open>count_down(unsigned int *value, unsigned int delta)\<close>.  The pointer is an
  option (\<open>None\<close> is NULL); the second component of the result is the cell after
  the call.
\<close>

fun count_down :: "32 word option \<Rightarrow> 32 word \<Rightarrow> bool \<times> 32 word option" where
  "count_down None delta = (False, None)"
| "count_down (Some v) delta =
     (if v = 0 \<or> v < delta then (False, Some v)
      else if v = INFINITY then (True, Some v)
      else (v - delta \<noteq> 0, Some (v - delta)))"

text \<open>
  What a call of \<^verbatim>\<open>wait_vfsmount\<close> did: its return value, the number of
  \<^verbatim>\<open>kern_path\<close> lookups it made and the milliseconds it slept in \<^verbatim>\<open>msleep\<close>.
\<close>

record wait_result =
  ok :: bool
  lookups :: nat
  slept :: nat

text \<open>
  The \<^verbatim>\<open>while\<close> loop of \<^verbatim>\<open>wait_vfsmount\<close>.  \<open>lookup n\<close> is the value the
  \<open>n\<close>-th call of \<^verbatim>\<open>kern_path\<close> returns (0 on success).  With the budget
  \<open>INFINITY\<close> and a lookup that never succeeds the loop does not end: the result
  is then \<open>None\<close>.
\<close>

partial_function (option) wait_loop ::
  "(nat \<Rightarrow> int) \<Rightarrow> 32 word \<Rightarrow> 32 word \<Rightarrow> nat \<Rightarrow> nat \<Rightarrow> wait_result option" where
  "wait_loop lookup trigger_interval retrigger_count n ms =
     (case count_down (Some retrigger_count) 1 of
        (go, cell) \<Rightarrow>
          if \<not> go then Some \<lparr>ok = False, lookups = n, slept = ms\<rparr>
          else if lookup n = 0 then Some \<lparr>ok = True, lookups = Suc n, slept = ms\<rparr>
          else wait_loop lookup trigger_interval
                 (case cell of None \<Rightarrow> retrigger_count | Some v \<Rightarrow> v)
                 (Suc n) (ms + unat trigger_interval))"

declare wait_loop.simps [code]

text \<open>
  \<^verbatim>\<open>wait_vfsmount(dir_name, trigger_interval, retrigger_count)\<close>.  The world
  supplies \<^verbatim>\<open>kern_path\<close> (see below); here it is the argument \<open>kern_path\<close>.
\<close>

definition wait_vfsmount ::
  "(string \<Rightarrow> nat \<Rightarrow> int) \<Rightarrow> string option \<Rightarrow> 32 word \<Rightarrow> 32 word \<Rightarrow> wait_result option" where
  "wait_vfsmount kern_path dir_name trigger_interval retrigger_count =
     (case dir_name of
        None \<Rightarrow> Some \<lparr>ok = False, lookups = 0, slept = 0\<rparr>
      | Some d \<Rightarrow> wait_loop (kern_path d) trigger_interval retrigger_count 0 0)"

subsection \<open>Data\<close>

text \<open>
  Modelled from the spec: the type declarations of the header
  \<^verbatim>\<open>mtk_rtc_tickstamp.h\<close>, which is missing from the sources.  The spec gives the
  persisted record as a single signed 64-bit field \<open>epoch\<close>, the deferred task as
  a unit of work with a retry budget \<open>retrigger_count\<close> and a delay
  \<open>trigger_interval\<close>, and the ticker source as a function that returns the
  current raw ticker value and may be absent.  The C file uses them so:
  \<^verbatim>\<open>g_stamp.epoch\<close> is a \<^verbatim>\<open>long\<close>, the two task fields are \<^verbatim>\<open>unsigned int\<close>,
  and the ticker's result is used as an \<^verbatim>\<open>unsigned long\<close>.
\<close>

record tick_stamp =
  epoch :: "64 word"

definition sizeof_tick_stamp :: nat where
  "sizeof_tick_stamp = 8"

datatype ts_worker_func = TS_READ_STAMP | TS_WRITE_STAMP

text \<open>
  A kernel \<^verbatim>\<open>work_struct\<close>: the function to run and the pending bit that
  \<^verbatim>\<open>schedule_work\<close> tests and sets.
\<close>

record work_struct =
  func :: "ts_worker_func option"
  pending :: bool

record ts_work_struct =
  work :: work_struct
  retrigger_count :: "32 word"
  trigger_interval :: "32 word"

text \<open>
  The ticker is a function of the hardware; \<open>f n\<close> is the value its \<open>n\<close>-th call
  returns, and the state counts the calls made so far.
\<close>

type_synonym ticker_func = "nat \<Rightarrow> 64 word"

datatype mm_segment_t = USER_DS | KERNEL_DS

datatype oflag = O_RDONLY | O_WRONLY | O_CREAT | O_TRUNC

record struct_file =
  f_path :: string
  f_flags :: "oflag list"
  f_pos :: nat

text \<open>The lines the driver prints with \<^verbatim>\<open>printk\<close>, with their arguments.\<close>

datatype printk =
    Failed_to_open string int
  | Failed_to_close int
  | Invalid_or_no_file int
  | Failed_to_run_write_work
  | Failed_to_write int

text \<open>A pointer to one of the two static work descriptors (\<open>None\<close> is NULL).\<close>

datatype ts_work_ref = WRITE_WORK | READ_WORK

text \<open>An out-only pointer argument: all that matters of it is whether it is NULL.\<close>

datatype out_ptr = NULL | VALID

text \<open>
  The state: the five static variables of the file (\<^verbatim>\<open>init_done\<close> is the static
  local of \<^verbatim>\<open>ts_init\<close>), and what the driver touches of the kernel: the address
  limit, the files by path, the number of ticker calls made, the log.
\<close>

record ts_state =
  ts_stamp_rw_mutex :: bool
  g_stamp :: tick_stamp
  ts_write_work :: ts_work_struct
  ts_read_work :: ts_work_struct
  g_ticker_fn :: "ticker_func option"
  init_done :: bool
  addr_limit :: mm_segment_t
  files :: "string \<Rightarrow> 8 word list option"
  ticks_read :: nat
  dmesg :: "printk list"

text \<open>
  What the kernel answers during one run of a worker, beyond the state: the
  result of each \<^verbatim>\<open>kern_path\<close> lookup, an error for \<^verbatim>\<open>filp_open\<close>,
  \<^verbatim>\<open>vfs_read\<close> and \<^verbatim>\<open>vfs_write\<close> if they are to fail for a reason outside the
  model, and the return value of \<^verbatim>\<open>filp_close\<close>.
\<close>

record world =
  kern_path :: "string \<Rightarrow> nat \<Rightarrow> int"
  filp_open_fault :: "errno option"
  vfs_read_fault :: "errno option"
  vfs_write_fault :: "errno option"
  filp_close_ret :: int

subsection \<open>The memory image of a tick stamp\<close>

text \<open>
  The workers read and write \<^verbatim>\<open>g_stamp\<close> as \<^verbatim>\<open>sizeof(g_stamp)\<close> bytes, least
  significant byte first.
\<close>

fun store_le :: "nat \<Rightarrow> 64 word \<Rightarrow> 8 word list" where
  "store_le 0 w = []"
| "store_le (Suc n) w = ucast w # store_le n (drop_bit 8 w)"

fun load_le :: "8 word list \<Rightarrow> 64 word" where
  "load_le [] = 0"
| "load_le (b # bs) = ucast b OR push_bit 8 (load_le bs)"

definition stamp_image :: "tick_stamp \<Rightarrow> 8 word list" where
  "stamp_image st = store_le sizeof_tick_stamp (epoch st)"

definition image_stamp :: "8 word list \<Rightarrow> tick_stamp" where
  "image_stamp bs = \<lparr>epoch = load_le (take sizeof_tick_stamp bs)\<rparr>"

subsection \<open>Kernel services\<close>

text \<open>
  Modelled from the spec: the kernel functions the driver calls, which are
  missing from the sources (\<^verbatim>\<open>printk\<close>, \<^verbatim>\<open>mutex_lock\<close>, \<^verbatim>\<open>mutex_unlock\<close>,
  \<^verbatim>\<open>filp_open\<close>, \<^verbatim>\<open>vfs_read\<close>, \<^verbatim>\<open>vfs_write\<close>, \<^verbatim>\<open>filp_close\<close>, \<^verbatim>\<open>kern_path\<close>,
  \<^verbatim>\<open>schedule_work\<close>, \<^verbatim>\<open>INIT_WORK\<close>).  The spec names them as collaborators:
  storage with open (a handle or an error), read and write (a byte count or an
  error) and close; a task submission that returns whether the task was
  submitted; one exclusive section.  Errors are negative numbers, as the driver
  tests them.
\<close>

definition printk :: "printk \<Rightarrow> ts_state \<Rightarrow> ts_state" where
  "printk m s = s\<lparr>dmesg := dmesg s @ [m]\<rparr>"

text \<open>
  \<^verbatim>\<open>mutex_lock\<close> on a mutex that is held does not return in a sequential run;
  \<^verbatim>\<open>mutex_unlock\<close> releases it.
\<close>

definition mutex_lock :: "ts_state \<Rightarrow> ts_state option" where
  "mutex_lock s = (if ts_stamp_rw_mutex s then None else Some (s\<lparr>ts_stamp_rw_mutex := True\<rparr>))"

definition mutex_unlock :: "ts_state \<Rightarrow> ts_state" where
  "mutex_unlock s = s\<lparr>ts_stamp_rw_mutex := False\<rparr>"

text \<open>
  \<^verbatim>\<open>filp_open\<close>: fails with the world's error if there is one, with \<open>ENOENT\<close> on
  a missing file unless \<open>O_CREAT\<close> is given; \<open>O_CREAT\<close> creates the file empty and
  \<open>O_TRUNC\<close> empties it.  The mode only matters for later opens by others.
\<close>

definition filp_open :: "world \<Rightarrow> string \<Rightarrow> oflag list \<Rightarrow> nat \<Rightarrow> ts_state \<Rightarrow> (errno + struct_file) \<times> ts_state" where
  "filp_open w path flags mode s =
     (case filp_open_fault w of
        Some e \<Rightarrow> (Inl e, s)
      | None \<Rightarrow>
          (case files s path of
             None \<Rightarrow>
               if O_CREAT \<in> set flags
               then (Inr \<lparr>f_path = path, f_flags = flags, f_pos = 0\<rparr>,
                     s\<lparr>files := (files s)(path := Some [])\<rparr>)
               else (Inl ENOENT, s)
           | Some bs \<Rightarrow>
               (Inr \<lparr>f_path = path, f_flags = flags, f_pos = 0\<rparr>,
                if O_TRUNC \<in> set flags then s\<lparr>files := (files s)(path := Some [])\<rparr> else s)))"

text \<open>
  \<^verbatim>\<open>vfs_read(fp, buf, count, &fp->f_pos)\<close>: the bytes from the position on, at
  most \<open>count\<close>, go to the front of the buffer; the result is their number, or a
  negative error.  The triple is the return value, the buffer and the file
  afterwards.
\<close>

definition vfs_read :: "world \<Rightarrow> struct_file \<Rightarrow> 8 word list \<Rightarrow> nat \<Rightarrow> ts_state \<Rightarrow> int \<times> 8 word list \<times> struct_file" where
  "vfs_read w fp buf count s =
     (case vfs_read_fault w of
        Some e \<Rightarrow> (- errno_val e, buf, fp)
      | None \<Rightarrow>
          (case files s (f_path fp) of
             None \<Rightarrow> (- errno_val EIO, buf, fp)
           | Some bs \<Rightarrow>
               (let got = take count (drop (f_pos fp) bs)
                in (int (length got), got @ drop (length got) buf,
                    fp\<lparr>f_pos := f_pos fp + length got\<rparr>))))"

text \<open>\<^verbatim>\<open>vfs_write(fp, buf, count, &fp->f_pos)\<close>: the first \<open>count\<close> bytes of the
  buffer replace the file's bytes from the position on.\<close>

definition vfs_write :: "world \<Rightarrow> struct_file \<Rightarrow> 8 word list \<Rightarrow> nat \<Rightarrow> ts_state \<Rightarrow> int \<times> struct_file \<times> ts_state" where
  "vfs_write w fp buf count s =
     (case vfs_write_fault w of
        Some e \<Rightarrow> (- errno_val e, fp, s)
      | None \<Rightarrow>
          (case files s (f_path fp) of
             None \<Rightarrow> (- errno_val EIO, fp, s)
           | Some bs \<Rightarrow>
               (let put = take count buf
                in (int (length put), fp\<lparr>f_pos := f_pos fp + length put\<rparr>,
                    s\<lparr>files := (files s)(f_path fp :=
                         Some (take (f_pos fp) bs @ put @ drop (f_pos fp + length put) bs))\<rparr>))))"

text \<open>
  \<^verbatim>\<open>schedule_work\<close>: queues the work unless it is pending already, and says
  whether it queued it.
\<close>

definition schedule_work :: "work_struct \<Rightarrow> bool \<times> work_struct" where
  "schedule_work wk = (if pending wk then (False, wk) else (True, wk\<lparr>pending := True\<rparr>))"

definition INIT_WORK :: "ts_worker_func \<Rightarrow> work_struct" where
  "INIT_WORK fn = \<lparr>func = Some fn, pending = False\<rparr>"

subsection \<open>Storage access\<close>

text \<open>\<^verbatim>\<open>fs_set\<close> saves the address limit through its pointer and widens it to the
  kernel's; \<^verbatim>\<open>fs_restore\<close> puts back what its pointer holds (\<open>None\<close> is NULL).\<close>

definition fs_set :: "out_ptr \<Rightarrow> ts_state \<Rightarrow> mm_segment_t option \<times> ts_state" where
  "fs_set oldfs s =
     (case oldfs of
        NULL \<Rightarrow> (None, s)
      | VALID \<Rightarrow> (Some (addr_limit s), s\<lparr>addr_limit := KERNEL_DS\<rparr>))"

definition fs_restore :: "mm_segment_t option \<Rightarrow> ts_state \<Rightarrow> ts_state" where
  "fs_restore oldfs s =
     (case oldfs of
        None \<Rightarrow> s
      | Some fs \<Rightarrow> s\<lparr>addr_limit := fs\<rparr>)"

definition ts_open :: "world \<Rightarrow> string \<Rightarrow> oflag list \<Rightarrow> nat \<Rightarrow> ts_state \<Rightarrow> struct_file option \<times> ts_state" where
  "ts_open w path flags mode s =
     (case fs_set VALID s of
        (oldfs, s1) \<Rightarrow>
          (case filp_open w path flags mode s1 of
             (fp, s2) \<Rightarrow>
               (case fp of
                  Inl e \<Rightarrow> (None, printk (Failed_to_open path (- errno_val e)) (fs_restore oldfs s2))
                | Inr f \<Rightarrow> (Some f, fs_restore oldfs s2))))"

definition ts_close :: "world \<Rightarrow> struct_file option \<Rightarrow> ts_state \<Rightarrow> ts_state" where
  "ts_close w fp s =
     (case fp of
        None \<Rightarrow> s
      | Some f \<Rightarrow>
          if filp_close_ret w \<noteq> 0 then printk (Failed_to_close (filp_close_ret w)) s else s)"

definition ts_read ::
  "world \<Rightarrow> struct_file \<Rightarrow> 8 word list \<Rightarrow> nat \<Rightarrow> ts_state \<Rightarrow> int \<times> 8 word list \<times> struct_file \<times> ts_state" where
  "ts_read w fp data count s =
     (case fs_set VALID s of
        (oldfs, s1) \<Rightarrow>
          (case vfs_read w fp data count s1 of
             (retval, data', fp') \<Rightarrow> (retval, data', fp', fs_restore oldfs s1)))"

definition ts_write ::
  "world \<Rightarrow> struct_file \<Rightarrow> 8 word list \<Rightarrow> nat \<Rightarrow> ts_state \<Rightarrow> int \<times> struct_file \<times> ts_state" where
  "ts_write w fp data count s =
     (case fs_set VALID s of
        (oldfs, s1) \<Rightarrow>
          (case vfs_write w fp data count s1 of
             (retval, fp', s2) \<Rightarrow> (retval, fp', fs_restore oldfs s2)))"

text \<open>\<^verbatim>\<open>get_stamp\<close>: what it stores through its pointer, if anything.\<close>

definition get_stamp :: "out_ptr \<Rightarrow> ts_state \<Rightarrow> tick_stamp option" where
  "get_stamp stamp s =
     (case stamp of
        NULL \<Rightarrow> None
      | VALID \<Rightarrow> Some (g_stamp s))"

subsection \<open>The public functions\<close>

definition get_work :: "ts_work_ref \<Rightarrow> ts_state \<Rightarrow> ts_work_struct" where
  "get_work r s = (case r of WRITE_WORK \<Rightarrow> ts_write_work s | READ_WORK \<Rightarrow> ts_read_work s)"

definition put_work :: "ts_work_ref \<Rightarrow> ts_work_struct \<Rightarrow> ts_state \<Rightarrow> ts_state" where
  "put_work r tw s =
     (case r of
        WRITE_WORK \<Rightarrow> s\<lparr>ts_write_work := tw\<rparr>
      | READ_WORK \<Rightarrow> s\<lparr>ts_read_work := tw\<rparr>)"

definition ts_work_init ::
  "ts_work_ref option \<Rightarrow> ts_worker_func \<Rightarrow> 32 word \<Rightarrow> 32 word \<Rightarrow> ts_state \<Rightarrow> ts_state" where
  "ts_work_init ts_work work_fn count interval s =
     (case ts_work of
        None \<Rightarrow> s
      | Some r \<Rightarrow>
          put_work r \<lparr>work = INIT_WORK work_fn, retrigger_count = count,
                      trigger_interval = interval\<rparr> s)"

definition ts_work_run :: "ts_work_ref option \<Rightarrow> ts_state \<Rightarrow> bool \<times> ts_state" where
  "ts_work_run ts_work s =
     (case ts_work of
        None \<Rightarrow> (False, s)
      | Some r \<Rightarrow>
          (case schedule_work (work (get_work r s)) of
             (queued, wk) \<Rightarrow> (queued, put_work r ((get_work r s)\<lparr>work := wk\<rparr>) s)))"

definition ts_init :: "ticker_func option \<Rightarrow> ts_state \<Rightarrow> bool \<times> ts_state" where
  "ts_init ticker_fn s =
     (if \<not> init_done s
      then (case ts_work_run (Some READ_WORK)
                   (ts_work_init (Some READ_WORK) TS_READ_STAMP INFINITY 1000
                     (ts_work_init (Some WRITE_WORK) TS_WRITE_STAMP INFINITY 1000
                       (s\<lparr>g_ticker_fn := ticker_fn\<rparr>))) of
              (retval, s') \<Rightarrow> (retval, s'\<lparr>init_done := True\<rparr>))
      else (True, s))"

text \<open>\<^verbatim>\<open>ts_stamp(tick)\<close>: the subtraction is on \<^verbatim>\<open>unsigned long\<close>, the sum on
  \<^verbatim>\<open>long\<close>; both wrap at 64 bits.\<close>

definition ts_stamp :: "64 word \<Rightarrow> ts_state \<Rightarrow> ts_state" where
  "ts_stamp tick s =
     (case g_ticker_fn s of
        None \<Rightarrow> s
      | Some f \<Rightarrow>
          (let delta = f (ticks_read s) - tick
           in s\<lparr>ticks_read := Suc (ticks_read s),
                g_stamp := (g_stamp s)\<lparr>epoch := epoch (g_stamp s) + delta\<rparr>\<rparr>))"

text \<open>\<^verbatim>\<open>ts_set\<close> returns \<^verbatim>\<open>ts_work_run(&ts_write_work) == 0\<close>.\<close>

definition ts_set :: "ts_state \<Rightarrow> bool \<times> ts_state" where
  "ts_set s = (case ts_work_run (Some WRITE_WORK) s of (retval, s') \<Rightarrow> (retval = False, s'))"

text \<open>\<^verbatim>\<open>ts_get(epoch)\<close>: the first component is what it stores through the pointer,
  if anything.\<close>

definition ts_get :: "out_ptr \<Rightarrow> ts_state \<Rightarrow> 64 word option \<times> ts_state" where
  "ts_get epoch_ptr s =
     (case epoch_ptr of
        NULL \<Rightarrow> (None, s)
      | VALID \<Rightarrow> (map_option epoch (get_stamp VALID s), s))"

subsection \<open>The recovery worker\<close>

text \<open>
  \<^verbatim>\<open>ts_read_stamp\<close> in two parts: the code up to the label \<^verbatim>\<open>_exit\<close>, which leaves
  the locals \<^verbatim>\<open>size\<close>, \<^verbatim>\<open>tsfp\<close> and \<^verbatim>\<open>tick\<close>, and the code from the label on.
  The worker's argument is the descriptor that holds the \<^verbatim>\<open>work_struct\<close>
  (\<^verbatim>\<open>container_of\<close>).  \<^verbatim>\<open>vfs_read\<close> writes into \<^verbatim>\<open>g_stamp\<close> itself.  The
  comparison \<^verbatim>\<open>g_stamp.epoch > (long)tick\<close> is signed.
\<close>

record read_locals =
  size' :: int
  tsfp :: "struct_file option"
  tick :: "64 word"

definition ts_read_stamp_body :: "world \<Rightarrow> ts_work_ref \<Rightarrow> ts_state \<Rightarrow> (read_locals \<times> ts_state) option" where
  "ts_read_stamp_body w wk s =
     (case wait_vfsmount (kern_path w) (Some TS_DIR)
             (trigger_interval (get_work wk s)) (retrigger_count (get_work wk s)) of
        None \<Rightarrow> None
      | Some r \<Rightarrow>
          if \<not> ok r then Some (\<lparr>size' = - errno_val EIO, tsfp = None, tick = 0\<rparr>, s)
          else
            (case mutex_lock s of
               None \<Rightarrow> None
             | Some s1 \<Rightarrow>
                 (case ts_open w TS_PATH [O_RDONLY] 0 s1 of
                    (None, s2) \<Rightarrow> Some (\<lparr>size' = - errno_val EIO, tsfp = None, tick = 0\<rparr>, s2)
                  | (Some fp, s2) \<Rightarrow>
                      (case ts_read w fp (stamp_image (g_stamp s2)) sizeof_tick_stamp s2 of
                         (sz, data, fp', s3) \<Rightarrow>
                           (let s4 = s3\<lparr>g_stamp := image_stamp data\<rparr>
                            in if sz < 0 then Some (\<lparr>size' = sz, tsfp = Some fp', tick = 0\<rparr>, s4)
                               else
                                 (case g_ticker_fn s4 of
                                    None \<Rightarrow> Some (\<lparr>size' = sz, tsfp = Some fp', tick = 0\<rparr>, s4)
                                  | Some f \<Rightarrow>
                                      (let t = f (ticks_read s4);
                                           s5 = s4\<lparr>ticks_read := Suc (ticks_read s4)\<rparr>
                                       in if sint t < sint (epoch (g_stamp s5))
                                          then Some (\<lparr>size' = - errno_val EINVAL, tsfp = Some fp', tick = t\<rparr>,
                                                     s5\<lparr>g_stamp := (g_stamp s5)\<lparr>epoch := 0\<rparr>\<rparr>)
                                          else Some (\<lparr>size' = sz, tsfp = Some fp', tick = t\<rparr>, s5))))))))"

definition ts_read_stamp_exit :: "world \<Rightarrow> read_locals \<Rightarrow> ts_state \<Rightarrow> ts_state" where
  "ts_read_stamp_exit w l s =
     (let s1 = mutex_unlock (ts_close w (tsfp l) s)
      in if size' l < 0
         then (case ts_set (ts_stamp (tick l) (printk (Invalid_or_no_file (size' l)) s1)) of
                 (set_ok, s2) \<Rightarrow> if \<not> set_ok then printk Failed_to_run_write_work s2 else s2)
         else s1)"

definition ts_read_stamp :: "world \<Rightarrow> ts_work_ref \<Rightarrow> ts_state \<Rightarrow> ts_state option" where
  "ts_read_stamp w wk s =
     (case ts_read_stamp_body w wk s of
        None \<Rightarrow> None
      | Some (l, s') \<Rightarrow> Some (ts_read_stamp_exit w l s'))"

subsection \<open>The persist worker\<close>

text \<open>
  \<^verbatim>\<open>ts_write_stamp\<close>, split at its label \<^verbatim>\<open>_exit\<close> in the same way.  The local
  \<^verbatim>\<open>stamp\<close> has no value before \<^verbatim>\<open>get_stamp(&stamp)\<close> stores one; the pointer
  is the address of the local, so the case that nothing is stored does not
  arise and is given no write.
\<close>

record write_locals =
  wsize :: int
  wtsfp :: "struct_file option"

definition ts_write_stamp_body :: "world \<Rightarrow> ts_work_ref \<Rightarrow> ts_state \<Rightarrow> (write_locals \<times> ts_state) option" where
  "ts_write_stamp_body w wk s =
     (case wait_vfsmount (kern_path w) (Some TS_DIR)
             (trigger_interval (get_work wk s)) (retrigger_count (get_work wk s)) of
        None \<Rightarrow> None
      | Some r \<Rightarrow>
          if \<not> ok r then Some (\<lparr>wsize = - errno_val EIO, wtsfp = None\<rparr>, s)
          else
            (case mutex_lock s of
               None \<Rightarrow> None
             | Some s1 \<Rightarrow>
                 (case ts_open w TS_PATH [O_CREAT, O_TRUNC, O_WRONLY] 292 s1 of
                    (None, s2) \<Rightarrow> Some (\<lparr>wsize = - errno_val EIO, wtsfp = None\<rparr>, s2)
                  | (Some fp, s2) \<Rightarrow>
                      (case get_stamp VALID s2 of
                         None \<Rightarrow> Some (\<lparr>wsize = - errno_val EIO, wtsfp = Some fp\<rparr>, s2)
                       | Some stamp \<Rightarrow>
                           (case ts_write w fp (stamp_image stamp) sizeof_tick_stamp s2 of
                              (sz, fp', s3) \<Rightarrow> Some (\<lparr>wsize = sz, wtsfp = Some fp'\<rparr>, s3))))))"

definition ts_write_stamp_exit :: "world \<Rightarrow> write_locals \<Rightarrow> ts_state \<Rightarrow> ts_state" where
  "ts_write_stamp_exit w l s =
     (let s1 = mutex_unlock (ts_close w (wtsfp l) s)
      in if wsize l < 0 then printk (Failed_to_write (wsize l)) s1 else s1)"

definition ts_write_stamp :: "world \<Rightarrow> ts_work_ref \<Rightarrow> ts_state \<Rightarrow> ts_state option" where
  "ts_write_stamp w wk s =
     (case ts_write_stamp_body w wk s of
        None \<Rightarrow> None
      | Some (l, s') \<Rightarrow> Some (ts_write_stamp_exit w l s'))"


subsection \<open>Call sequences and concrete inputs\<close>

text \<open>The calls \<^verbatim>\<open>ts_stamp(r1); ...; ts_stamp(rn)\<close>, in this order.\<close>

definition stamp_calls :: "64 word list \<Rightarrow> ts_state \<Rightarrow> ts_state" where
  "stamp_calls rs s = fold ts_stamp rs s"

text \<open>A ticker that starts at 100 and advances by one with every call.\<close>

definition ticker_from_100 :: ticker_func where
  "ticker_from_100 n = 100 + of_nat n"

text \<open>A world where the directory is there at the first lookup and nothing fails.\<close>

definition world_mounted :: world where
  "world_mounted =
     \<lparr>kern_path = (\<lambda>d n. 0), filp_open_fault = None, vfs_read_fault = None,
      vfs_write_fault = None, filp_close_ret = 0\<rparr>"

definition world_read_error :: world where
  "world_read_error = world_mounted\<lparr>vfs_read_fault := Some EIO\<rparr>"

text \<open>The state at boot (statics zeroed, no file), and after \<^verbatim>\<open>ts_init\<close>.\<close>

definition state_boot :: ts_state where
  "state_boot =
     \<lparr>ts_stamp_rw_mutex = False,
      g_stamp = \<lparr>epoch = 0\<rparr>,
      ts_write_work = \<lparr>work = \<lparr>func = None, pending = False\<rparr>,
                       retrigger_count = 0, trigger_interval = 0\<rparr>,
      ts_read_work = \<lparr>work = \<lparr>func = None, pending = False\<rparr>,
                      retrigger_count = 0, trigger_interval = 0\<rparr>,
      g_ticker_fn = None,
      init_done = False,
      addr_limit = USER_DS,
      files = (\<lambda>p. None),
      ticks_read = 0,
      dmesg = []\<rparr>"

definition state_ready :: ts_state where
  "state_ready = snd (ts_init (Some ticker_from_100) state_boot)"

definition with_tickstamp :: "8 word list \<Rightarrow> ts_state \<Rightarrow> ts_state" where
  "with_tickstamp bs s = s\<lparr>files := (files s)(TS_PATH := Some bs)\<rparr>"

text \<open>A world where the directory never appears (\<^verbatim>\<open>kern_path\<close> returns \<open>-ENOENT\<close>).\<close>

definition world_unmounted :: world where
  "world_unmounted = world_mounted\<lparr>kern_path := (\<lambda>d n. - errno_val ENOENT)\<rparr>"

text \<open>A ticker whose readings have the top bit set, and the state after
  \<^verbatim>\<open>ts_init\<close> with it.\<close>

definition ticker_from_2_63 :: ticker_func where
  "ticker_from_2_63 n = 2 ^ 63 + of_nat n"

definition state_high :: ts_state where
  "state_high = snd (ts_init (Some ticker_from_2_63) state_boot)"

subsection \<open>Calls of \<^verbatim>\<open>ts_stamp\<close> that overlap\<close>

text \<open>
  \<^verbatim>\<open>ts_stamp\<close> takes no lock, so a second call can run between any two memory
  accesses of a first.  A call in progress is a thread: at \<open>Start\<close> it has its
  argument; the test of \<^verbatim>\<open>g_ticker_fn\<close>, the ticker call and the subtraction
  give it \<^verbatim>\<open>delta\<close>; \<^verbatim>\<open>g_stamp.epoch += delta\<close> is a load of the epoch and then a
  store of the sum.  \<open>stamp_step\<close> is the next step of a thread on the shared
  state; the three steps of one thread in a row are \<^verbatim>\<open>ts_stamp\<close> (lemma
  \<open>stamp_steps_ts_stamp\<close> below).
\<close>

datatype stamp_thread =
    Start "64 word"
  | Have_delta "64 word"
  | Loaded "64 word" "64 word"
  | Done

fun stamp_step :: "stamp_thread \<Rightarrow> ts_state \<Rightarrow> stamp_thread \<times> ts_state" where
  "stamp_step (Start r) s =
     (case g_ticker_fn s of
        None \<Rightarrow> (Done, s)
      | Some f \<Rightarrow> (Have_delta (f (ticks_read s) - r), s\<lparr>ticks_read := Suc (ticks_read s)\<rparr>))"
| "stamp_step (Have_delta delta) s = (Loaded delta (epoch (g_stamp s)), s)"
| "stamp_step (Loaded delta e) s = (Done, s\<lparr>g_stamp := (g_stamp s)\<lparr>epoch := e + delta\<rparr>\<rparr>)"
| "stamp_step Done s = (Done, s)"

text \<open>A schedule names, step by step, the thread that moves next.\<close>

fun run_schedule :: "nat list \<Rightarrow> stamp_thread list \<Rightarrow> ts_state \<Rightarrow> stamp_thread list \<times> ts_state" where
  "run_schedule [] ts s = (ts, s)"
| "run_schedule (i # sched) ts s =
     (if i < length ts
      then (case stamp_step (ts ! i) s of (t', s') \<Rightarrow> run_schedule sched (ts[i := t']) s')
      else run_schedule sched ts s)"


section \<open>Facts about the model\<close>

subsection \<open>The memory image\<close>

lemma length_store_le: "length (store_le n w) = n"
  by (induction n arbitrary: w) simp_all

lemma load_store_le: "load_le (store_le n w) = take_bit (8 * n) w"
proof (induction n arbitrary: w)
  case 0
  show ?case by simp
next
  case (Suc n)
  show ?case
    apply (simp add: Suc)
    apply (rule bit_eqI)
    apply (auto simp add: bit_simps)
    done
qed

lemma image_stamp_image: "image_stamp (stamp_image st) = st"
  by (cases st)
     (simp add: image_stamp_def stamp_image_def length_store_le load_store_le
        sizeof_tick_stamp_def take_bit_word_eq_self)

lemma length_stamp_image: "length (stamp_image st) = 8"
  by (simp add: stamp_image_def length_store_le sizeof_tick_stamp_def)

lemma errno_val_pos [simp]: "0 < errno_val e"
  by (cases e) simp_all

subsection \<open>The mount wait\<close>

lemma wait_loop_budget_0:
  "wait_loop lookup i 0 n ms = Some \<lparr>ok = False, lookups = n, slept = ms\<rparr>"
  by (subst wait_loop.simps) simp

lemma wait_loop_budget_1:
  "wait_loop lookup i 1 n ms = Some \<lparr>ok = False, lookups = n, slept = ms\<rparr>"
  by (subst wait_loop.simps) (simp add: INFINITY_def)

lemma wait_loop_first_ok:
  assumes "c \<noteq> 0" "c \<noteq> 1" "lookup n = 0"
  shows "wait_loop lookup i c n ms = Some \<lparr>ok = True, lookups = Suc n, slept = ms\<rparr>"
  using assms by (subst wait_loop.simps) (auto simp add: INFINITY_def)

text \<open>With the budget \<open>INFINITY\<close> the loop never gives up.\<close>

lemma wait_loop_infinity_ok_aux:
  assumes "wait_loop lookup i c n ms = Some r"
  shows "c = INFINITY \<longrightarrow> ok r"
  by (rule wait_loop.raw_induct
        [where P = "\<lambda>lookup i c n ms r. c = INFINITY \<longrightarrow> ok r", OF _ assms])
     (auto simp add: INFINITY_def split: if_splits)

lemma wait_loop_infinity_ok:
  "wait_loop lookup i INFINITY n ms = Some r \<Longrightarrow> ok r"
  using wait_loop_infinity_ok_aux by blast

lemma wait_loop_infinity_step:
  "lookup n \<noteq> 0 \<Longrightarrow>
   wait_loop lookup i INFINITY n ms = wait_loop lookup i INFINITY (Suc n) (ms + unat i)"
  by (subst wait_loop.simps) (simp add: INFINITY_def)

text \<open>It returns as soon as a lookup succeeds, and with a finite budget it
  returns in any case.\<close>

lemma wait_loop_infinity_returns:
  "lookup (n + k) = 0 \<Longrightarrow> \<exists>r. wait_loop lookup i INFINITY n ms = Some r \<and> ok r"
proof (induction k arbitrary: n ms)
  case 0
  then show ?case by (simp add: wait_loop_first_ok INFINITY_def)
next
  case (Suc k)
  show ?case
  proof (cases "lookup n = 0")
    case True
    then show ?thesis by (simp add: wait_loop_first_ok INFINITY_def)
  next
    case False
    from Suc.prems have "lookup (Suc n + k) = 0" by simp
    from Suc.IH [OF this] show ?thesis
      using False by (simp add: wait_loop_infinity_step)
  qed
qed

lemma wait_loop_finite_returns:
  "c \<noteq> INFINITY \<Longrightarrow> \<exists>r. wait_loop lookup i c n ms = Some r"
proof (induction "unat c" arbitrary: c n ms)
  case 0
  then have "c = 0" by (simp add: unat_eq_0)
  then show ?case by (simp add: wait_loop_budget_0)
next
  case (Suc m)
  then have c: "c \<noteq> 0" by auto
  have m: "unat (c - 1) = m" using Suc.hyps(2) c
    by (metis diff_Suc_1 unat_minus_one)
  have ni: "c - 1 \<noteq> INFINITY" using Suc.prems c
    by (metis INFINITY_def add.commute diff_add_cancel add.right_inverse)
  show ?case
    using Suc.hyps(1) [OF m [symmetric] ni] c Suc.prems
    by (subst wait_loop.simps) auto
qed

lemma unat_minus_1: "c \<noteq> 0 \<Longrightarrow> unat (c - 1 :: 32 word) = unat c - 1"
  by (simp add: unat_minus_one)

text \<open>A false result: the budget was finite, every lookup made has failed, and a
  budget \<open>c\<close> has bought \<open>c - 1\<close> lookups and as many sleeps.\<close>

lemma wait_loop_false_aux:
  assumes "wait_loop lookup i c n ms = Some r"
  shows "\<not> ok r \<longrightarrow>
           c \<noteq> INFINITY \<and> lookups r = n + (unat c - 1) \<and> slept r = ms + (unat c - 1) * unat i
           \<and> (\<forall>k. n \<le> k \<and> k < lookups r \<longrightarrow> lookup k \<noteq> 0)"
proof (rule wait_loop.raw_induct
        [where P = "\<lambda>lookup i c n ms r. \<not> ok r \<longrightarrow>
           c \<noteq> INFINITY \<and> lookups r = n + (unat c - 1) \<and> slept r = ms + (unat c - 1) * unat i
           \<and> (\<forall>k. n \<le> k \<and> k < lookups r \<longrightarrow> lookup k \<noteq> 0)", OF _ assms])
  fix wl :: "(nat \<Rightarrow> int) \<Rightarrow> 32 word \<Rightarrow> 32 word \<Rightarrow> nat \<Rightarrow> nat \<Rightarrow> wait_result option"
  fix lookup i c n ms r
  assume IH: "\<And>lookup i c n ms r. wl lookup i c n ms = Some r \<Longrightarrow> \<not> ok r \<longrightarrow>
           c \<noteq> INFINITY \<and> lookups r = n + (unat c - 1) \<and> slept r = ms + (unat c - 1) * unat i
           \<and> (\<forall>k. n \<le> k \<and> k < lookups r \<longrightarrow> lookup k \<noteq> 0)"
  assume body: "(case count_down (Some c) 1 of
        (go, cell) \<Rightarrow>
          if \<not> go then Some \<lparr>ok = False, lookups = n, slept = ms\<rparr>
          else if lookup n = 0 then Some \<lparr>ok = True, lookups = Suc n, slept = ms\<rparr>
          else wl lookup i (case cell of None \<Rightarrow> c | Some v \<Rightarrow> v) (Suc n) (ms + unat i)) = Some r"
  show "\<not> ok r \<longrightarrow>
           c \<noteq> INFINITY \<and> lookups r = n + (unat c - 1) \<and> slept r = ms + (unat c - 1) * unat i
           \<and> (\<forall>k. n \<le> k \<and> k < lookups r \<longrightarrow> lookup k \<noteq> 0)"
  proof (cases "c = 0 \<or> c = 1")
    case True
    with body show ?thesis
      by (auto simp add: INFINITY_def)
  next
    case False
    then have c: "c \<noteq> 0" "c \<noteq> 1" by simp_all
    show ?thesis
    proof (cases "c = INFINITY")
      case inf: True
      show ?thesis
      proof (cases "lookup n = 0")
        case True
        with body inf show ?thesis by (auto simp add: INFINITY_def)
      next
        case False
        with body inf have "wl lookup i INFINITY (Suc n) (ms + unat i) = Some r"
          by (simp add: INFINITY_def)
        from IH [OF this] show ?thesis by simp
      qed
    next
      case fin: False
      show ?thesis
      proof (cases "lookup n = 0")
        case True
        with body c fin show ?thesis by auto
      next
        case False
        with body c fin have rec: "wl lookup i (c - 1) (Suc n) (ms + unat i) = Some r"
          by simp
        have u: "unat (c - 1) = unat c - 1" using c(1) by (rule unat_minus_1)
        have pos: "0 < unat (c - 1)" using c by (metis diff_eq_eq add_0 unat_gt_0)
        then obtain m where m: "unat (c - 1) = Suc m"
          by (cases "unat (c - 1)") simp_all
        with u have m': "unat c - 1 = Suc m" by simp
        show ?thesis
        proof
          assume nok: "\<not> ok r"
          with IH [OF rec] have l: "lookups r = Suc n + (unat (c - 1) - 1)"
            and sl: "slept r = ms + unat i + (unat (c - 1) - 1) * unat i"
            and fl: "\<forall>k. Suc n \<le> k \<and> k < lookups r \<longrightarrow> lookup k \<noteq> 0"
            by simp_all
          have "lookups r = n + (unat c - 1)"
            using l m m' by simp
          moreover have "slept r = ms + (unat c - 1) * unat i"
            using sl m m' by simp
          moreover have "\<forall>k. n \<le> k \<and> k < lookups r \<longrightarrow> lookup k \<noteq> 0"
          proof (intro allI impI)
            fix k assume k: "n \<le> k \<and> k < lookups r"
            show "lookup k \<noteq> 0"
            proof (cases "k = n")
              case True
              with False show ?thesis by simp
            next
              case False
              with k have "Suc n \<le> k \<and> k < lookups r" by simp
              with fl show ?thesis by blast
            qed
          qed
          ultimately show "c \<noteq> INFINITY \<and> lookups r = n + (unat c - 1)
              \<and> slept r = ms + (unat c - 1) * unat i
              \<and> (\<forall>k. n \<le> k \<and> k < lookups r \<longrightarrow> lookup k \<noteq> 0)"
            using fin by blast
        qed
      qed
    qed
  qed
qed

lemma wait_vfsmount_null_path:
  "wait_vfsmount kp None i c = Some \<lparr>ok = False, lookups = 0, slept = 0\<rparr>"
  by (simp add: wait_vfsmount_def)

lemma wait_vfsmount_budget_0:
  "wait_vfsmount kp dir i 0 = Some \<lparr>ok = False, lookups = 0, slept = 0\<rparr>"
  by (cases dir) (simp_all add: wait_vfsmount_def wait_loop_budget_0)

lemma wait_vfsmount_first_ok:
  "c \<noteq> 0 \<Longrightarrow> c \<noteq> 1 \<Longrightarrow> kp d 0 = 0 \<Longrightarrow>
   wait_vfsmount kp (Some d) i c = Some \<lparr>ok = True, lookups = 1, slept = 0\<rparr>"
  by (simp add: wait_vfsmount_def wait_loop_first_ok)

lemma wait_vfsmount_infinity_returns:
  "kp d k = 0 \<Longrightarrow> \<exists>r. wait_vfsmount kp (Some d) i INFINITY = Some r \<and> ok r"
  using wait_loop_infinity_returns [of "kp d" 0 k i 0] by (simp add: wait_vfsmount_def)

lemma wait_vfsmount_false_finite:
  "wait_vfsmount kp (Some d) i c = Some r \<Longrightarrow> \<not> ok r \<Longrightarrow> c \<noteq> INFINITY"
  using wait_loop_infinity_ok by (auto simp add: wait_vfsmount_def)

subsection \<open>Unfolding sets and frame facts\<close>

lemmas io_defs = ts_open_def ts_close_def ts_read_def ts_write_def fs_set_def fs_restore_def
  filp_open_def vfs_read_def vfs_write_def mutex_lock_def mutex_unlock_def printk_def
  sizeof_tick_stamp_def

lemmas work_defs = ts_set_def ts_work_run_def get_work_def put_work_def schedule_work_def

lemmas read_defs = ts_read_stamp_def ts_read_stamp_body_def ts_read_stamp_exit_def get_work_def

lemmas ready_defs = state_ready_def state_boot_def ts_init_def ts_work_init_def ts_work_run_def
  put_work_def get_work_def schedule_work_def INIT_WORK_def with_tickstamp_def

lemma mutex_lock_frame:
  "mutex_lock s = Some s1 \<Longrightarrow>
     g_ticker_fn s1 = g_ticker_fn s \<and> ticks_read s1 = ticks_read s \<and> g_stamp s1 = g_stamp s"
  by (auto simp add: mutex_lock_def split: if_splits)

lemma ts_open_frame:
  "ts_open w path flags mode s = (fp, s1) \<Longrightarrow>
     g_ticker_fn s1 = g_ticker_fn s \<and> ticks_read s1 = ticks_read s \<and> g_stamp s1 = g_stamp s"
  by (auto simp add: ts_open_def fs_set_def fs_restore_def filp_open_def printk_def
        split: option.splits if_splits sum.splits)

lemma ts_read_frame:
  "ts_read w fp data count s = (sz, data', fp', s1) \<Longrightarrow>
     g_ticker_fn s1 = g_ticker_fn s \<and> ticks_read s1 = ticks_read s \<and> g_stamp s1 = g_stamp s"
  by (auto simp add: ts_read_def fs_set_def fs_restore_def split: prod.splits)

lemma ts_close_frame: "g_stamp (ts_close w fp s) = g_stamp s"
  by (simp add: ts_close_def printk_def split: option.splits)

text \<open>\<^verbatim>\<open>ts_stamp\<close> does not touch the mutex.\<close>

lemma ts_stamp_mutex: "ts_stamp_rw_mutex (ts_stamp t s) = ts_stamp_rw_mutex s"
  by (simp add: ts_stamp_def Let_def split: option.splits)

lemma fallback_epoch:
  "epoch (g_stamp (ts_stamp 0 s)) =
     (case g_ticker_fn s of
        None \<Rightarrow> epoch (g_stamp s)
      | Some f \<Rightarrow> epoch (g_stamp s) + f (ticks_read s))"
  by (simp add: ts_stamp_def split: option.splits)

subsection \<open>The concrete inputs\<close>

lemma state_ready_fields:
  "g_ticker_fn (with_tickstamp bs state_ready) = Some ticker_from_100"
  "ticks_read (with_tickstamp bs state_ready) = 0"
  "\<not> ts_stamp_rw_mutex (with_tickstamp bs state_ready)"
  "g_stamp (with_tickstamp bs state_ready) = \<lparr>epoch = 0\<rparr>"
  "files (with_tickstamp bs state_ready) TS_PATH = Some bs"
  "g_ticker_fn state_ready = Some ticker_from_100"
  "ticks_read state_ready = 0"
  "\<not> ts_stamp_rw_mutex state_ready"
  "g_stamp state_ready = \<lparr>epoch = 0\<rparr>"
  "files state_ready TS_PATH = None"
  by (simp_all add: ready_defs)

lemma world_mounted_fields:
  "filp_open_fault world_mounted = None"
  "vfs_read_fault world_mounted = None"
  "vfs_write_fault world_mounted = None"
  "filp_close_ret world_mounted = 0"
  "filp_open_fault world_read_error = None"
  "vfs_read_fault world_read_error = Some EIO"
  "filp_close_ret world_read_error = 0"
  by (simp_all add: world_mounted_def world_read_error_def)

lemma wait_ready:
  "wait_vfsmount (kern_path world_mounted) (Some TS_DIR)
     (trigger_interval (ts_read_work state_ready)) (retrigger_count (ts_read_work state_ready))
   = Some \<lparr>ok = True, lookups = 1, slept = 0\<rparr>"
  by (simp add: ready_defs world_mounted_def wait_vfsmount_first_ok INFINITY_def)

lemma wait_ready_file:
  "wait_vfsmount (kern_path world_mounted) (Some TS_DIR)
     (trigger_interval (ts_read_work (with_tickstamp bs state_ready)))
     (retrigger_count (ts_read_work (with_tickstamp bs state_ready)))
   = Some \<lparr>ok = True, lookups = 1, slept = 0\<rparr>"
  by (simp add: ready_defs world_mounted_def wait_vfsmount_first_ok INFINITY_def)

lemma wait_ready_read_error:
  "wait_vfsmount (kern_path world_read_error) (Some TS_DIR)
     (trigger_interval (ts_read_work (with_tickstamp bs state_ready)))
     (retrigger_count (ts_read_work (with_tickstamp bs state_ready)))
   = Some \<lparr>ok = True, lookups = 1, slept = 0\<rparr>"
  by (simp add: ready_defs world_mounted_def world_read_error_def wait_vfsmount_first_ok
        INFINITY_def)

lemma stamp_image_0: "stamp_image \<lparr>epoch = 0\<rparr> = [0, 0, 0, 0, 0, 0, 0, 0]"
  by code_simp

lemmas eval_defs = ts_read_stamp_def ts_read_stamp_body_def ts_read_stamp_exit_def io_defs
  ts_set_def ts_stamp_def ready_defs world_mounted_def wait_vfsmount_first_ok INFINITY_def
  ticker_from_100_def length_stamp_image image_stamp_image Let_def

subsection \<open>The persist worker\<close>

text \<open>
  With the directory there and no error, the
  persist worker leaves exactly the image of the live stamp in the file.
\<close>

lemma ts_write_stamp_persists:
  assumes "wait_vfsmount (kern_path w) (Some TS_DIR)
             (trigger_interval (ts_write_work s)) (retrigger_count (ts_write_work s)) = Some r"
    and "ok r"
    and "\<not> ts_stamp_rw_mutex s"
    and "filp_open_fault w = None" and "vfs_write_fault w = None"
  shows "\<exists>s'. ts_write_stamp w WRITE_WORK s = Some s'
           \<and> files s' TS_PATH = Some (stamp_image (g_stamp s))
           \<and> g_stamp s' = g_stamp s"
  using assms
  by (cases "files s TS_PATH")
     (simp_all add: ts_write_stamp_def ts_write_stamp_body_def ts_write_stamp_exit_def
        get_work_def get_stamp_def io_defs length_stamp_image Let_def)

subsection \<open>Threads of \<^verbatim>\<open>ts_stamp\<close>\<close>

text \<open>The three steps of a thread, run in a row, are one call of \<^verbatim>\<open>ts_stamp\<close>.\<close>

lemma stamp_steps_ts_stamp:
  "run_schedule [0, 0, 0] [Start r] s = ([Done], ts_stamp r s)"
  by (cases "g_ticker_fn s") (simp_all add: ts_stamp_def Let_def)





subsection \<open>A ticker with the top bit set\<close>

lemma sint_2_63: "sint (2 ^ 63 :: 64 word) = - (2 ^ 63)"
  by code_simp

lemma uint_2_63: "uint (2 ^ 63 :: 64 word) = 2 ^ 63"
  by code_simp

lemmas high_defs = state_high_def state_boot_def ts_init_def ts_work_init_def ts_work_run_def
  put_work_def get_work_def schedule_work_def INIT_WORK_def with_tickstamp_def

section \<open>The claims\<close>

subsection \<open>C1: what \<^verbatim>\<open>ts_set\<close> returns\<close>

text \<open>
  C1 says that \<^verbatim>\<open>ts_set\<close> returns true if and only if submitting the persist
  worker succeeded.  \<^verbatim>\<open>schedule_work\<close> returns true when it queued the work, and
  \<^verbatim>\<open>ts_work_run\<close> passes that on.  The code of \<^verbatim>\<open>ts_set\<close> returns
  \<^verbatim>\<open>ts_work_run(&ts_write_work) == 0\<close>: in every state \<^verbatim>\<open>ts_set\<close> returns the
  negation of what \<^verbatim>\<open>ts_work_run\<close> returned.  It is true exactly when the work was
  pending already and was therefore not queued; either way the work is pending
  afterwards.
\<close>

theorem ts_set_negates_submission:
  "fst (ts_set s) = (\<not> fst (ts_work_run (Some WRITE_WORK) s))
   \<and> ts_set s =
       (pending (work (ts_write_work s)),
        s\<lparr>ts_write_work :=
             (ts_write_work s)\<lparr>work := (work (ts_write_work s))\<lparr>pending := True\<rparr>\<rparr>\<rparr>)"
  by (simp add: work_defs)

text \<open>
  Right after \<^verbatim>\<open>ts_init\<close> the persist work is idle: \<^verbatim>\<open>ts_work_run\<close> queues it and
  returns true, as it does for the recovery work in \<^verbatim>\<open>ts_init\<close>, and \<^verbatim>\<open>ts_set\<close>
  returns false.  The recovery worker then prints that it failed to run the
  write work, although the work is queued.
\<close>

lemma ts_set_after_init:
  "fst (ts_init (Some ticker_from_100) state_boot)
   \<and> fst (ts_work_run (Some WRITE_WORK) state_ready)
   \<and> \<not> fst (ts_set state_ready)
   \<and> pending (work (ts_write_work (snd (ts_set state_ready))))"
  by (simp add: ts_set_def ready_defs)

text \<open>
  A recovery without a file shows what the worker makes of the result of
  \<^verbatim>\<open>ts_set\<close>: the persist work is queued, and the log ends with the line that
  the write work could not be run.
\<close>

lemma recovery_logs_failure_when_queued:
  "map_option dmesg (ts_read_stamp world_mounted READ_WORK state_ready) =
     Some [Failed_to_open TS_PATH (- 2), Invalid_or_no_file (- 5), Failed_to_run_write_work]
   \<and> map_option (pending \<circ> work \<circ> ts_write_work)
        (ts_read_stamp world_mounted READ_WORK state_ready) = Some True"
  by (simp add: eval_defs)

subsection \<open>C2: a sequence of stamps\<close>

text \<open>
  C2: for every initial epoch and every sequence of calls \<^verbatim>\<open>ts_stamp(r1)\<close>, ...,
  \<^verbatim>\<open>ts_stamp(rn)\<close> made while a ticker is registered, the epoch afterwards is the
  initial epoch plus the sum over \<open>i\<close> of the ticker value read during call \<open>i\<close>
  minus \<open>r\<^sub>i\<close>.  Call \<open>i\<close> (counted from 0) reads the ticker for the
  \<open>ticks_read s + i\<close>-th time.  Sum and difference are those of the C types:
  64-bit words, which wrap.
\<close>

theorem stamp_calls_epoch:
  assumes "g_ticker_fn s = Some f"
  shows "epoch (g_stamp (stamp_calls rs s)) =
         epoch (g_stamp s) + (\<Sum>i<length rs. f (ticks_read s + i) - rs ! i)"
  using assms
proof (induction rs arbitrary: s)
  case Nil
  show ?case by (simp add: stamp_calls_def)
next
  case (Cons r rs)
  let ?s = "ts_stamp r s"
  have f: "g_ticker_fn ?s = Some f" and t: "ticks_read ?s = Suc (ticks_read s)"
    and e: "epoch (g_stamp ?s) = epoch (g_stamp s) + (f (ticks_read s) - r)"
    using Cons.prems by (simp_all add: ts_stamp_def)
  have split: "(\<Sum>i<length (r # rs). f (ticks_read s + i) - (r # rs) ! i) =
      (f (ticks_read s) - r) + (\<Sum>i<length rs. f (Suc (ticks_read s) + i) - rs ! i)"
    by (simp add: sum.lessThan_Suc_shift del: sum.lessThan_Suc)
  have "stamp_calls (r # rs) s = stamp_calls rs ?s"
    by (simp add: stamp_calls_def)
  then show ?case
    using Cons.IH [OF f] by (simp only: t e split add.assoc)
qed

text \<open>Two calls from the state after \<^verbatim>\<open>ts_init\<close>: the ticker reads 100, then 101.\<close>

theorem stamp_calls_epoch_witness:
  "g_ticker_fn state_ready = Some ticker_from_100
   \<and> epoch (g_stamp (stamp_calls [10, 20] state_ready)) = 0 + ((100 - 10) + (101 - 20))"
proof -
  have h: "g_ticker_fn state_ready = Some ticker_from_100"
    by (rule state_ready_fields)
  have "epoch (g_stamp (stamp_calls [10, 20] state_ready)) = 171"
    using stamp_calls_epoch [OF h, of "[10, 20]"]
    by (simp add: state_ready_fields ticker_from_100_def lessThan_Suc)
  with h show ?thesis by simp
qed

subsection \<open>C3: a stored epoch that the ticker has reached\<close>

text \<open>
  C3 says that a stored epoch \<open>E\<close> is kept whenever the ticker reads \<open>T \<ge> E\<close>.
  The ticker value is an \<^verbatim>\<open>unsigned long\<close>, and the code tests
  \<^verbatim>\<open>g_stamp.epoch > (long)tick\<close>.  A reading of \<open>2\<^sup>6\<^sup>3\<close> is above the stored
  epoch 5 as a number, but negative as a \<^verbatim>\<open>long\<close>: the worker discards the epoch,
  ends with the epoch 1 and schedules the persist work.
\<close>

theorem recovery_discards_under_high_ticker:
  "uint (ticker_from_2_63 0) = 2 ^ 63
   \<and> sint (5 :: 64 word) \<le> uint (ticker_from_2_63 0)
   \<and> map_option (epoch \<circ> g_stamp)
        (ts_read_stamp world_mounted READ_WORK
           (with_tickstamp (stamp_image \<lparr>epoch = 5\<rparr>) state_high)) = Some 1
   \<and> map_option (pending \<circ> work \<circ> ts_write_work)
        (ts_read_stamp world_mounted READ_WORK
           (with_tickstamp (stamp_image \<lparr>epoch = 5\<rparr>) state_high)) = Some True"
  by (simp add: ts_read_stamp_def ts_read_stamp_body_def ts_read_stamp_exit_def io_defs
        ts_set_def ts_stamp_def high_defs world_mounted_def wait_vfsmount_first_ok INFINITY_def
        ticker_from_2_63_def length_stamp_image image_stamp_image Let_def sint_2_63 uint_2_63)

text \<open>
  C3 as amended: the file holds the record with epoch \<open>E\<close>, the recovery worker
  opens and reads it, and the registered ticker reads \<open>T\<close> with \<open>T \<ge> E\<close> when
  both are taken as \<^verbatim>\<open>long\<close>, as the code compares them.  Then the worker
  returns, the live epoch is \<open>E\<close>, and the persist work and the file are as they
  were: nothing was scheduled.
\<close>

theorem recovery_round_trip:
  assumes "wait_vfsmount (kern_path w) (Some TS_DIR)
             (trigger_interval (ts_read_work s)) (retrigger_count (ts_read_work s)) = Some r"
    and "ok r"
    and "\<not> ts_stamp_rw_mutex s"
    and "filp_open_fault w = None" and "vfs_read_fault w = None"
    and "files s TS_PATH = Some (stamp_image \<lparr>epoch = E\<rparr>)"
    and "g_ticker_fn s = Some f" and "f (ticks_read s) = T"
    and "sint E \<le> sint T"
  shows "\<exists>s'. ts_read_stamp w READ_WORK s = Some s'
           \<and> epoch (g_stamp s') = E
           \<and> ts_write_work s' = ts_write_work s
           \<and> files s' = files s"
  using assms
  by (simp add: read_defs io_defs length_stamp_image image_stamp_image Let_def)

theorem recovery_round_trip_witness:
  "files (with_tickstamp (stamp_image \<lparr>epoch = 50\<rparr>) state_ready) TS_PATH
     = Some (stamp_image \<lparr>epoch = 50\<rparr>)
   \<and> ticker_from_100 (ticks_read (with_tickstamp (stamp_image \<lparr>epoch = 50\<rparr>) state_ready)) = 100
   \<and> sint (50 :: 64 word) \<le> sint (100 :: 64 word)
   \<and> (\<exists>s'. ts_read_stamp world_mounted READ_WORK
               (with_tickstamp (stamp_image \<lparr>epoch = 50\<rparr>) state_ready) = Some s'
           \<and> epoch (g_stamp s') = 50
           \<and> \<not> pending (work (ts_write_work s')))"
proof -
  let ?s = "with_tickstamp (stamp_image \<lparr>epoch = 50\<rparr>) state_ready"
  have t: "ticker_from_100 (ticks_read ?s) = 100"
    by (simp add: state_ready_fields ticker_from_100_def)
  have le: "sint (50 :: 64 word) \<le> sint (100 :: 64 word)"
    by simp
  have idle: "\<not> pending (work (ts_write_work ?s))"
    by (simp add: ready_defs)
  from recovery_round_trip [OF wait_ready_file _ state_ready_fields(3)
      world_mounted_fields(1) world_mounted_fields(2) state_ready_fields(5)
      state_ready_fields(1) t le]
  obtain s' where "ts_read_stamp world_mounted READ_WORK ?s = Some s'"
    and "epoch (g_stamp s') = 50" and "ts_write_work s' = ts_write_work ?s"
    by auto
  with idle t le show ?thesis
    by (simp add: state_ready_fields)
qed

text \<open>
  The whole round trip: what the persist worker wrote from a state with the
  epoch \<open>E\<close> is what a later recovery, in any state that finds that file,
  restores, provided the ticker then reads at least \<open>E\<close> as a \<^verbatim>\<open>long\<close>.
\<close>

lemma write_then_recover:
  assumes "wait_vfsmount (kern_path w1) (Some TS_DIR)
             (trigger_interval (ts_write_work s)) (retrigger_count (ts_write_work s)) = Some r1"
    and "ok r1" and "\<not> ts_stamp_rw_mutex s"
    and "filp_open_fault w1 = None" and "vfs_write_fault w1 = None"
    and "ts_write_stamp w1 WRITE_WORK s = Some s1"
    and "files s2 TS_PATH = files s1 TS_PATH"
    and "wait_vfsmount (kern_path w2) (Some TS_DIR)
             (trigger_interval (ts_read_work s2)) (retrigger_count (ts_read_work s2)) = Some r2"
    and "ok r2" and "\<not> ts_stamp_rw_mutex s2"
    and "filp_open_fault w2 = None" and "vfs_read_fault w2 = None"
    and "g_ticker_fn s2 = Some f"
    and "sint (epoch (g_stamp s)) \<le> sint (f (ticks_read s2))"
  shows "\<exists>s'. ts_read_stamp w2 READ_WORK s2 = Some s' \<and> g_stamp s' = g_stamp s
           \<and> ts_write_work s' = ts_write_work s2"
proof -
  from ts_write_stamp_persists [OF assms(1-5)] assms(6)
  have "files s1 TS_PATH = Some (stamp_image (g_stamp s))"
    by simp
  with assms(7) have "files s2 TS_PATH = Some (stamp_image (g_stamp s))"
    by simp
  with assms(8-14) show ?thesis
    by (simp add: read_defs io_defs length_stamp_image image_stamp_image Let_def)
qed

subsection \<open>C4: a stored epoch ahead of the ticker\<close>

text \<open>
  C4: the file holds the record with epoch \<open>E\<close>, the worker reads it, and the
  ticker reads \<open>T\<close> with \<open>T < E\<close> (as \<^verbatim>\<open>long\<close>).  Then the worker returns; it has
  set the epoch to 0 and made one call \<^verbatim>\<open>ts_stamp(T)\<close> on that, so the epoch is
  what the ticker reads in that call minus \<open>T\<close>; the ticker was read twice in
  all; and the persist work is pending.
\<close>

theorem recovery_ticker_regression:
  assumes "wait_vfsmount (kern_path w) (Some TS_DIR)
             (trigger_interval (ts_read_work s)) (retrigger_count (ts_read_work s)) = Some r"
    and "ok r"
    and "\<not> ts_stamp_rw_mutex s"
    and "filp_open_fault w = None" and "vfs_read_fault w = None"
    and "files s TS_PATH = Some (stamp_image \<lparr>epoch = E\<rparr>)"
    and "g_ticker_fn s = Some f" and "f (ticks_read s) = T"
    and "sint T < sint E"
  shows "\<exists>s'. ts_read_stamp w READ_WORK s = Some s'
           \<and> g_stamp s' =
               g_stamp (ts_stamp T (s\<lparr>g_stamp := \<lparr>epoch = 0\<rparr>, ticks_read := Suc (ticks_read s)\<rparr>))
           \<and> epoch (g_stamp s') = 0 + (f (Suc (ticks_read s)) - T)
           \<and> ticks_read s' = Suc (Suc (ticks_read s))
           \<and> pending (work (ts_write_work s'))"
  using assms
  by (simp add: read_defs io_defs work_defs ts_stamp_def length_stamp_image image_stamp_image
        Let_def)

theorem recovery_ticker_regression_witness:
  "files (with_tickstamp (stamp_image \<lparr>epoch = 200\<rparr>) state_ready) TS_PATH
     = Some (stamp_image \<lparr>epoch = 200\<rparr>)
   \<and> ticker_from_100 (ticks_read (with_tickstamp (stamp_image \<lparr>epoch = 200\<rparr>) state_ready)) = 100
   \<and> sint (100 :: 64 word) < sint (200 :: 64 word)
   \<and> (\<exists>s'. ts_read_stamp world_mounted READ_WORK
               (with_tickstamp (stamp_image \<lparr>epoch = 200\<rparr>) state_ready) = Some s'
           \<and> epoch (g_stamp s') = 101 - 100
           \<and> ticks_read s' = 2
           \<and> pending (work (ts_write_work s')))"
proof -
  let ?s = "with_tickstamp (stamp_image \<lparr>epoch = 200\<rparr>) state_ready"
  have t: "ticker_from_100 (ticks_read ?s) = 100"
    by (simp add: state_ready_fields ticker_from_100_def)
  have lt: "sint (100 :: 64 word) < sint (200 :: 64 word)"
    by simp
  from recovery_ticker_regression [OF wait_ready_file _ state_ready_fields(3)
      world_mounted_fields(1) world_mounted_fields(2) state_ready_fields(5)
      state_ready_fields(1) t lt]
  obtain s' where "ts_read_stamp world_mounted READ_WORK ?s = Some s'"
    and "epoch (g_stamp s') = 0 + (ticker_from_100 (Suc (ticks_read ?s)) - 100)"
    and "ticks_read s' = Suc (Suc (ticks_read ?s))"
    and "pending (work (ts_write_work s'))"
    by auto
  with t lt show ?thesis
    by (simp add: state_ready_fields ticker_from_100_def)
qed

subsection \<open>C5: no file\<close>

text \<open>
  C5 says that when the open fails, recovery ends in exactly the accumulator
  state of the ticker-regression case.  It does not.  From the same live state
  and with the same ticker, the run without a file ends with the epoch 100 (the
  prior epoch 0 plus the whole ticker value, from \<^verbatim>\<open>ts_stamp(0)\<close>), the run with
  a stored epoch 200 ahead of the ticker ends with the epoch 1 (one tick passed
  between the validation and \<^verbatim>\<open>ts_stamp(100)\<close>).
\<close>

theorem recovery_absent_differs_from_regression:
  "map_option (epoch \<circ> g_stamp) (ts_read_stamp world_mounted READ_WORK state_ready) = Some 100
   \<and> map_option (epoch \<circ> g_stamp)
        (ts_read_stamp world_mounted READ_WORK
           (with_tickstamp (stamp_image \<lparr>epoch = 200\<rparr>) state_ready)) = Some 1"
  by (simp add: eval_defs)

text \<open>
  C5 as amended: when the open fails (an error, or no file), the worker returns
  after the same fallback as in the regression case, one call of \<^verbatim>\<open>ts_stamp\<close>
  and the scheduling of the persist work; but the call is \<^verbatim>\<open>ts_stamp(0)\<close> on the
  live epoch as it was, so the resulting epoch is the prior epoch plus the
  ticker value (the prior epoch if no ticker is registered).
\<close>

theorem recovery_absent_store:
  assumes wait: "wait_vfsmount (kern_path w) (Some TS_DIR)
             (trigger_interval (ts_read_work s)) (retrigger_count (ts_read_work s)) = Some r"
    and ok: "ok r"
    and free: "\<not> ts_stamp_rw_mutex s"
    and absent: "filp_open_fault w \<noteq> None \<or> files s TS_PATH = None"
  shows "\<exists>s'. ts_read_stamp w READ_WORK s = Some s'
           \<and> g_stamp s' = g_stamp (ts_stamp 0 s)
           \<and> epoch (g_stamp s') =
               (case g_ticker_fn s of
                  None \<Rightarrow> epoch (g_stamp s)
                | Some f \<Rightarrow> epoch (g_stamp s) + f (ticks_read s))
           \<and> pending (work (ts_write_work s'))"
proof -
  let ?l = "\<lparr>size' = - errno_val EIO, tsfp = None, tick = 0\<rparr>"
  from absent obtain e s2 where
    op: "ts_open w TS_PATH [O_RDONLY] 0 (s\<lparr>ts_stamp_rw_mutex := True\<rparr>) = (None, s2)"
    and s2: "s2 = printk (Failed_to_open TS_PATH (- errno_val e)) (s\<lparr>ts_stamp_rw_mutex := True\<rparr>)"
  proof (cases "filp_open_fault w")
    case (Some e)
    then show ?thesis
      by (intro that [of _ e]) (simp_all add: io_defs)
  next
    case None
    with absent have "files s TS_PATH = None" by simp
    with None show ?thesis
      by (intro that [of _ ENOENT]) (simp_all add: io_defs)
  qed
  have body: "ts_read_stamp_body w READ_WORK s = Some (?l, s2)"
    using wait ok free op by (simp add: ts_read_stamp_body_def get_work_def mutex_lock_def)
  have "ts_read_stamp w READ_WORK s = Some (ts_read_stamp_exit w ?l s2)"
    by (simp add: ts_read_stamp_def body)
  moreover have "g_stamp (ts_read_stamp_exit w ?l s2) = g_stamp (ts_stamp 0 s)"
    by (cases "g_ticker_fn s")
       (simp_all add: ts_read_stamp_exit_def s2 ts_close_def mutex_unlock_def printk_def
          work_defs ts_stamp_def Let_def)
  moreover have "pending (work (ts_write_work (ts_read_stamp_exit w ?l s2)))"
    by (cases "g_ticker_fn s")
       (simp_all add: ts_read_stamp_exit_def s2 ts_close_def mutex_unlock_def printk_def
          work_defs ts_stamp_def Let_def)
  ultimately show ?thesis
    by (simp add: fallback_epoch)
qed

theorem recovery_absent_store_witness:
  "files state_ready TS_PATH = None
   \<and> (\<exists>s'. ts_read_stamp world_mounted READ_WORK state_ready = Some s'
           \<and> epoch (g_stamp s') = 0 + 100
           \<and> pending (work (ts_write_work s')))"
proof -
  have absent: "filp_open_fault world_mounted \<noteq> None \<or> files state_ready TS_PATH = None"
    by (simp add: state_ready_fields)
  from recovery_absent_store [OF wait_ready _ state_ready_fields(8) absent]
  obtain s' where "ts_read_stamp world_mounted READ_WORK state_ready = Some s'"
    and "epoch (g_stamp s') =
           (case g_ticker_fn state_ready of
              None \<Rightarrow> epoch (g_stamp state_ready)
            | Some f \<Rightarrow> epoch (g_stamp state_ready) + f (ticks_read state_ready))"
    and "pending (work (ts_write_work s'))"
    by auto
  then show ?thesis
    by (simp add: state_ready_fields ticker_from_100_def)
qed

subsection \<open>C6: short and failed reads\<close>

text \<open>
  C6 says that a read of fewer bytes than the record is treated as a failure.
  The worker only tests \<^verbatim>\<open>size < 0\<close>.  With a file of the single byte 7 the read
  returns 1, the byte lands in \<^verbatim>\<open>g_stamp\<close>, the epoch 7 passes the validation,
  nothing is printed and no persist is scheduled.
\<close>

theorem recovery_short_read_accepted:
  "map_option (size' \<circ> fst)
      (ts_read_stamp_body world_mounted READ_WORK (with_tickstamp [7] state_ready)) = Some 1
   \<and> map_option (epoch \<circ> g_stamp)
      (ts_read_stamp world_mounted READ_WORK (with_tickstamp [7] state_ready)) = Some 7
   \<and> map_option (pending \<circ> work \<circ> ts_write_work)
      (ts_read_stamp world_mounted READ_WORK (with_tickstamp [7] state_ready)) = Some False
   \<and> map_option dmesg
      (ts_read_stamp world_mounted READ_WORK (with_tickstamp [7] state_ready)) = Some []"
  by (simp add: eval_defs image_stamp_def stamp_image_0)

text \<open>
  C6 as amended: every read that returns a negative result is treated as a
  failure: the worker prints the result, calls \<^verbatim>\<open>ts_stamp(0)\<close> and schedules the
  persist work.  A read that returns a count that is not negative, however
  short (also of no byte at all), is not treated as a failure: the bytes read
  replace the front of \<^verbatim>\<open>g_stamp\<close>, and only the ticker validation decides
  whether the fallback is taken.  Without a registered ticker, or with a ticker
  that has reached the resulting epoch, that epoch stays, the ticker is read at
  most once, nothing but a failed close is printed and the persist work is as
  it was.
\<close>

theorem recovery_read_check:
  assumes "wait_vfsmount (kern_path w) (Some TS_DIR)
             (trigger_interval (ts_read_work s)) (retrigger_count (ts_read_work s)) = Some r"
    and "ok r"
    and "\<not> ts_stamp_rw_mutex s"
    and "filp_open_fault w = None" and "files s TS_PATH = Some bs"
  shows "\<exists>s'. ts_read_stamp w READ_WORK s = Some s' \<and>
     (case vfs_read_fault w of
        Some e \<Rightarrow>
          Invalid_or_no_file (- errno_val e) \<in> set (dmesg s')
          \<and> g_stamp s' = g_stamp (ts_stamp 0 s)
          \<and> pending (work (ts_write_work s'))
      | None \<Rightarrow>
          (let st = image_stamp (take 8 bs @ drop (min 8 (length bs)) (stamp_image (g_stamp s)));
               closed = (if filp_close_ret w \<noteq> 0
                         then dmesg s @ [Failed_to_close (filp_close_ret w)] else dmesg s)
           in case g_ticker_fn s of
                None \<Rightarrow>
                  g_stamp s' = st \<and> ts_write_work s' = ts_write_work s
                  \<and> ticks_read s' = ticks_read s \<and> dmesg s' = closed
              | Some f \<Rightarrow>
                  if sint (f (ticks_read s)) < sint (epoch st)
                  then Invalid_or_no_file (- errno_val EINVAL) \<in> set (dmesg s')
                       \<and> g_stamp s' = g_stamp (ts_stamp (f (ticks_read s))
                            (s\<lparr>g_stamp := \<lparr>epoch = 0\<rparr>, ticks_read := Suc (ticks_read s)\<rparr>))
                       \<and> pending (work (ts_write_work s'))
                  else g_stamp s' = st \<and> ts_write_work s' = ts_write_work s
                       \<and> ticks_read s' = Suc (ticks_read s) \<and> dmesg s' = closed))"
proof (cases "vfs_read_fault w")
  case (Some e)
  with assms show ?thesis
    by (cases "g_ticker_fn s")
       (simp_all add: read_defs io_defs work_defs ts_stamp_def Let_def image_stamp_image)
next
  case None
  show ?thesis
  proof (cases "g_ticker_fn s")
    case nt: None
    with None assms show ?thesis
      by (simp add: read_defs io_defs Let_def min_def)
  next
    case (Some f)
    with None assms show ?thesis
      by (simp add: read_defs io_defs work_defs ts_stamp_def Let_def min_def)
  qed
qed

text \<open>A read of no byte from an empty file, and a read that fails with \<open>-EIO\<close>.\<close>

theorem recovery_read_check_witness:
  "files (with_tickstamp [] state_ready) TS_PATH = Some []
   \<and> vfs_read_fault world_mounted = None
   \<and> (\<exists>s'. ts_read_stamp world_mounted READ_WORK (with_tickstamp [] state_ready) = Some s'
          \<and> g_stamp s' = \<lparr>epoch = 0\<rparr>
          \<and> ts_write_work s' = ts_write_work (with_tickstamp [] state_ready)
          \<and> ticks_read s' = 1
          \<and> dmesg s' = [])
   \<and> vfs_read_fault world_read_error = Some EIO
   \<and> (\<exists>s'. ts_read_stamp world_read_error READ_WORK
              (with_tickstamp (stamp_image \<lparr>epoch = 50\<rparr>) state_ready) = Some s'
          \<and> Invalid_or_no_file (- 5) \<in> set (dmesg s')
          \<and> epoch (g_stamp s') = 100
          \<and> pending (work (ts_write_work s')))"
proof -
  let ?s = "with_tickstamp [] state_ready"
  let ?t = "with_tickstamp (stamp_image \<lparr>epoch = 50\<rparr>) state_ready"
  have d: "dmesg ?s = []"
    by (simp add: ready_defs)
  from recovery_read_check [OF wait_ready_file [of "[]"] _ state_ready_fields(3) world_mounted_fields(1)
      state_ready_fields(5)]
  have a: "\<exists>s'. ts_read_stamp world_mounted READ_WORK ?s = Some s'
          \<and> g_stamp s' = \<lparr>epoch = 0\<rparr> \<and> ts_write_work s' = ts_write_work ?s
          \<and> ticks_read s' = 1 \<and> dmesg s' = []"
    by (simp add: state_ready_fields world_mounted_fields image_stamp_image
          ticker_from_100_def d)
  from recovery_read_check [OF wait_ready_read_error [of "stamp_image \<lparr>epoch = 50\<rparr>"] _
      state_ready_fields(3) world_mounted_fields(5) state_ready_fields(5)]
  have b: "\<exists>s'. ts_read_stamp world_read_error READ_WORK ?t = Some s'
          \<and> Invalid_or_no_file (- 5) \<in> set (dmesg s')
          \<and> epoch (g_stamp s') = 100
          \<and> pending (work (ts_write_work s'))"
    by (auto simp add: state_ready_fields world_mounted_fields fallback_epoch ticker_from_100_def)
  from a b show ?thesis
    by (simp add: state_ready_fields world_mounted_fields)
qed

subsection \<open>C7: the attempts of the mount wait\<close>

text \<open>
  C7 says that with a finite budget of at least 1 and a path whose first
  lookup succeeds, \<^verbatim>\<open>wait_vfsmount\<close> makes that lookup and returns true.  With the
  budget 1 the code makes no lookup at all: \<^verbatim>\<open>count_down\<close> takes the budget to
  0 and returns false before the first pass through the loop, although the
  directory is there.
\<close>

theorem wait_vfsmount_budget_1_no_lookup:
  "kern_path world_mounted TS_DIR 0 = 0
   \<and> wait_vfsmount (kern_path world_mounted) (Some TS_DIR) 1000 1
       = Some \<lparr>ok = False, lookups = 0, slept = 0\<rparr>"
  by (simp add: world_mounted_def wait_vfsmount_def wait_loop_budget_1)

text \<open>The same for every \<^verbatim>\<open>kern_path\<close>, directory and interval.\<close>

lemma wait_vfsmount_budget_1:
  "wait_vfsmount kp (Some d) i 1 = Some \<lparr>ok = False, lookups = 0, slept = 0\<rparr>"
  by (simp add: wait_vfsmount_def wait_loop_budget_1)

text \<open>With a directory that never appears the budget 3 buys two lookups.\<close>

lemma wait_unmounted_3:
  "wait_vfsmount (kern_path world_unmounted) (Some TS_DIR) 1000 3
     = Some \<lparr>ok = False, lookups = 2, slept = 2000\<rparr>"
  apply (simp add: wait_vfsmount_def world_unmounted_def world_mounted_def)
  apply (subst wait_loop.simps, simp add: INFINITY_def)
  apply (subst wait_loop.simps, simp add: INFINITY_def)
  apply (simp add: wait_loop_budget_1)
  done

text \<open>
  C7 as amended: for every budget of at least 2, the sentinel \<open>INFINITY\<close>
  included, and every path whose first lookup succeeds, \<^verbatim>\<open>wait_vfsmount\<close> makes
  that lookup and returns true at once, without sleeping.  It returns false for
  a path that is not NULL only when the budget is finite and every lookup it
  made has failed (a budget \<open>c\<close> buys \<open>c - 1\<close> lookups).  The budget 0 and the
  NULL path give false without a lookup.
\<close>

theorem wait_vfsmount_attempts:
  "(c \<noteq> 0 \<and> c \<noteq> 1 \<and> kp d 0 = 0 \<longrightarrow>
      wait_vfsmount kp (Some d) i c = Some \<lparr>ok = True, lookups = 1, slept = 0\<rparr>)
   \<and> (wait_vfsmount kp (Some d) i c = Some r \<and> \<not> ok r \<longrightarrow>
        c \<noteq> INFINITY \<and> lookups r = unat c - 1 \<and> (\<forall>n<lookups r. kp d n \<noteq> 0))
   \<and> wait_vfsmount kp dir i 0 = Some \<lparr>ok = False, lookups = 0, slept = 0\<rparr>
   \<and> wait_vfsmount kp None i c = Some \<lparr>ok = False, lookups = 0, slept = 0\<rparr>"
proof (intro conjI impI)
  assume "c \<noteq> 0 \<and> c \<noteq> 1 \<and> kp d 0 = 0"
  then show "wait_vfsmount kp (Some d) i c = Some \<lparr>ok = True, lookups = 1, slept = 0\<rparr>"
    by (simp add: wait_vfsmount_def wait_loop_first_ok)
next
  assume a: "wait_vfsmount kp (Some d) i c = Some r \<and> \<not> ok r"
  then have "wait_loop (kp d) i c 0 0 = Some r" by (simp add: wait_vfsmount_def)
  from wait_loop_false_aux [OF this] a
  show "c \<noteq> INFINITY" and "lookups r = unat c - 1" and "\<forall>n<lookups r. kp d n \<noteq> 0"
    by simp_all
next
  show "wait_vfsmount kp dir i 0 = Some \<lparr>ok = False, lookups = 0, slept = 0\<rparr>"
    by (rule wait_vfsmount_budget_0)
next
  show "wait_vfsmount kp None i c = Some \<lparr>ok = False, lookups = 0, slept = 0\<rparr>"
    by (rule wait_vfsmount_null_path)
qed

theorem wait_vfsmount_attempts_witness:
  "kern_path world_mounted TS_DIR 0 = 0
   \<and> wait_vfsmount (kern_path world_mounted) (Some TS_DIR) 1000 2
       = Some \<lparr>ok = True, lookups = 1, slept = 0\<rparr>
   \<and> wait_vfsmount (kern_path world_unmounted) (Some TS_DIR) 1000 3
       = Some \<lparr>ok = False, lookups = 2, slept = 2000\<rparr>
   \<and> (3 :: 32 word) \<noteq> INFINITY
   \<and> kern_path world_unmounted TS_DIR 0 \<noteq> 0
   \<and> kern_path world_unmounted TS_DIR 1 \<noteq> 0"
proof -
  have m: "kern_path world_mounted TS_DIR 0 = 0"
    by (simp add: world_mounted_def)
  have "wait_vfsmount (kern_path world_mounted) (Some TS_DIR) 1000 2
       = Some \<lparr>ok = True, lookups = 1, slept = 0\<rparr>"
    using wait_vfsmount_attempts [of 2 "kern_path world_mounted" TS_DIR 1000] m by simp
  moreover
  have "(3 :: 32 word) \<noteq> INFINITY \<and> (\<forall>n<2. kern_path world_unmounted TS_DIR n \<noteq> 0)"
    using wait_vfsmount_attempts [of 3 "kern_path world_unmounted" TS_DIR 1000
                "\<lparr>ok = False, lookups = 2, slept = 2000\<rparr>"] wait_unmounted_3
    by simp
  then have "(3 :: 32 word) \<noteq> INFINITY" and "kern_path world_unmounted TS_DIR 0 \<noteq> 0"
    and "kern_path world_unmounted TS_DIR 1 \<noteq> 0"
    by simp_all
  ultimately show ?thesis
    using m wait_unmounted_3 by simp
qed

subsection \<open>C8: the sign of an accepted epoch\<close>

text \<open>
  C8 says that after a recovery whose validation succeeds the epoch is not
  negative.  The validation only compares the epoch with the ticker.  A stored
  epoch of -100 (what \<^verbatim>\<open>ts_stamp(200)\<close> leaves when the ticker reads 100, and
  what the persist worker then writes) is accepted at the next recovery: the
  epoch is -100 and nothing is scheduled.
\<close>

theorem recovery_accepts_negative_epoch:
  "epoch (g_stamp (ts_stamp 200 state_ready)) = - 100
   \<and> map_option (size' \<circ> fst)
        (ts_read_stamp_body world_mounted READ_WORK
           (with_tickstamp (stamp_image \<lparr>epoch = - 100\<rparr>) state_ready)) = Some 8
   \<and> map_option (sint \<circ> epoch \<circ> g_stamp)
        (ts_read_stamp world_mounted READ_WORK
           (with_tickstamp (stamp_image \<lparr>epoch = - 100\<rparr>) state_ready)) = Some (- 100)
   \<and> map_option (pending \<circ> work \<circ> ts_write_work)
        (ts_read_stamp world_mounted READ_WORK
           (with_tickstamp (stamp_image \<lparr>epoch = - 100\<rparr>) state_ready)) = Some False"
  by (simp add: eval_defs)

text \<open>What the code before the label leaves when the record was accepted.\<close>

lemma body_accepted:
  assumes "ts_read_stamp_body w wk s = Some (l, s1)"
    and "0 \<le> size' l"
    and "g_ticker_fn s = Some f"
  shows "tick l = f (ticks_read s) \<and> sint (epoch (g_stamp s1)) \<le> sint (tick l)"
  using assms
  apply (simp add: ts_read_stamp_body_def Let_def split: option.splits if_splits prod.splits)
  apply (auto dest!: mutex_lock_frame ts_open_frame ts_read_frame)
  done

text \<open>
  C8 as amended: after a recovery that reaches the label \<^verbatim>\<open>_exit\<close> with a
  \<^verbatim>\<open>size\<close> that is not negative while a ticker is registered (the record was read
  and not discarded), the worker returns and the live epoch is at most the
  ticker value read for the validation, both taken as \<^verbatim>\<open>long\<close>.
\<close>

theorem recovery_accepted_epoch_le_tick:
  assumes "ts_read_stamp_body w wk s = Some (l, s1)"
    and "0 \<le> size' l"
    and "g_ticker_fn s = Some f"
  shows "ts_read_stamp w wk s = Some (ts_read_stamp_exit w l s1)
       \<and> tick l = f (ticks_read s)
       \<and> sint (epoch (g_stamp (ts_read_stamp_exit w l s1))) \<le> sint (f (ticks_read s))"
proof -
  note acc = body_accepted [OF assms]
  have t: "tick l = f (ticks_read s)"
    by (rule conjunct1 [OF acc])
  have le: "sint (epoch (g_stamp s1)) \<le> sint (tick l)"
    by (rule conjunct2 [OF acc])
  have "g_stamp (ts_read_stamp_exit w l s1) = g_stamp s1"
    using assms(2) by (simp add: ts_read_stamp_exit_def mutex_unlock_def ts_close_frame)
  then have "sint (epoch (g_stamp (ts_read_stamp_exit w l s1))) \<le> sint (tick l)"
    using le by (simp only:)
  then have "sint (epoch (g_stamp (ts_read_stamp_exit w l s1))) \<le> sint (f (ticks_read s))"
    by (simp only: t)
  moreover have "ts_read_stamp w wk s = Some (ts_read_stamp_exit w l s1)"
    using assms(1) by (simp add: ts_read_stamp_def)
  ultimately show ?thesis
    using t by blast
qed

theorem recovery_accepted_epoch_le_tick_witness:
  "map_option (size' \<circ> fst)
     (ts_read_stamp_body world_mounted READ_WORK
        (with_tickstamp (stamp_image \<lparr>epoch = 50\<rparr>) state_ready)) = Some 8
   \<and> g_ticker_fn (with_tickstamp (stamp_image \<lparr>epoch = 50\<rparr>) state_ready) = Some ticker_from_100
   \<and> (\<exists>s'. ts_read_stamp world_mounted READ_WORK
               (with_tickstamp (stamp_image \<lparr>epoch = 50\<rparr>) state_ready) = Some s'
           \<and> sint (epoch (g_stamp s')) \<le> 100)"
proof -
  let ?s = "with_tickstamp (stamp_image \<lparr>epoch = 50\<rparr>) state_ready"
  have sz: "map_option (size' \<circ> fst) (ts_read_stamp_body world_mounted READ_WORK ?s) = Some 8"
    by (simp add: eval_defs)
  then obtain l s1 where b: "ts_read_stamp_body world_mounted READ_WORK ?s = Some (l, s1)"
    and l: "size' l = 8"
    by auto
  have nonneg: "0 \<le> size' l"
    by (simp add: l)
  have t: "sint (ticker_from_100 (ticks_read ?s)) = 100"
    by (simp add: state_ready_fields ticker_from_100_def)
  from recovery_accepted_epoch_le_tick [OF b nonneg state_ready_fields(1)] sz t
  show ?thesis
    by (simp add: state_ready_fields)
qed

subsection \<open>C9: calls of \<^verbatim>\<open>ts_stamp\<close> that overlap\<close>




subsection \<open>C10: \<^verbatim>\<open>ts_get\<close> with a NULL pointer\<close>

text \<open>
  C10: \<^verbatim>\<open>ts_get(NULL)\<close> is a no-op in every state: nothing is stored through the
  pointer and the state is unchanged.
\<close>

theorem ts_get_null:
  "ts_get NULL s = (None, s)"
  by (simp add: ts_get_def)

text \<open>With a pointer that is not NULL the epoch is stored, and the state is
  unchanged as well.\<close>

lemma ts_get_valid:
  "ts_get VALID s = (Some (epoch (g_stamp s)), s)"
  by (simp add: ts_get_def get_stamp_def)

end
